theory Spec2Isabelle
  imports Main
begin

section \<open>Errors\<close>

text \<open>
  Every error return of the Go code is a value. Errors produced by collaborators
  (the Go standard library, the policy store, the class registry) are carried as
  \<open>ErrExternal\<close> with their message; \<open>ErrWrap\<close> is \<open>fmt.Errorf("...: %w", err)\<close>.
  \<open>PanicNilMap\<close> is Go's run-time panic on an assignment to an entry of a nil map,
  \<open>PanicNilPointer\<close> the one on a field of a nil pointer.
\<close>

datatype error =
    ErrNoSource
  | ErrEmptyIDOrValue
  | ErrDuplicatedID string
  | ErrMissingAPIKey
  | ErrExternal string
  | ErrWrap string error
  | PanicNilMap
  | PanicNilPointer

section \<open>The API key handler (pkg/acp/apikey/api_key.go)\<close>

subsection \<open>Data\<close>

text \<open>
  \<open>Config\<close>, \<open>Key\<close>, \<open>key\<close> and \<open>Handler\<close> are the structs of the file. A Go
  \<open>map[string]string\<close> that is only read is a partial function (reading or ranging over a
  nil map behaves as for the empty map); \<open>ForwardHeaders\<close> is tested against nil by
  \<open>ServeHTTP\<close>, so its nil value is \<open>None\<close>.
\<close>

record Key =
  ID :: string
  Metadata :: "string \<rightharpoonup> string"
  Value :: string

record Config =
  Header :: string
  Query :: string
  Cookie :: string
  Keys :: "Key list"
  ForwardHeaders :: "(string \<rightharpoonup> string) option"

record key =
  key_ID :: string
  key_Metadata :: "string \<rightharpoonup> string"

record Handler =
  name :: string
  header :: string
  query :: string
  cookie :: string
  keys :: "string \<rightharpoonup> key"
  fwdHeaders :: "(string \<rightharpoonup> string) option"

subsection \<open>NewHandler\<close>

text \<open>
  The body of the loop \<open>for _, k := range cfg.Keys\<close>, with the two maps it fills
  (\<open>keys\<close>, and \<open>uniqIDs\<close> as the set of its keys) passed along. The metadata map
  \<open>md\<close> is a fresh map that receives every entry of \<open>k.Metadata\<close> and then \<open>"_id"\<close>.
\<close>

fun NewHandler_loop ::
  "Key list \<Rightarrow> (string \<rightharpoonup> key) \<Rightarrow> string set \<Rightarrow> error + (string \<rightharpoonup> key)" where
  "NewHandler_loop [] ks uniqIDs = Inr ks"
| "NewHandler_loop (k # rest) ks uniqIDs =
     (if ID k = '''' \<or> Value k = '''' then Inl ErrEmptyIDOrValue
      else if ID k \<in> uniqIDs then Inl (ErrDuplicatedID (ID k))
      else let md = (Map.empty ++ Metadata k)(''_id'' \<mapsto> ID k) in
        NewHandler_loop rest
          (ks(Value k \<mapsto> \<lparr>key_ID = ID k, key_Metadata = md\<rparr>))
          (insert (ID k) uniqIDs))"

definition NewHandler :: "Config \<Rightarrow> string \<Rightarrow> error + Handler" where
  "NewHandler cfg nm =
     (if Header cfg = '''' \<and> Query cfg = '''' \<and> Cookie cfg = '''' then Inl ErrNoSource
      else case NewHandler_loop (Keys cfg) Map.empty {} of
        Inl e \<Rightarrow> Inl e
      | Inr ks \<Rightarrow>
          Inr \<lparr>name = nm, header = Header cfg, query = Query cfg, cookie = Cookie cfg,
               keys = ks, fwdHeaders = ForwardHeaders cfg\<rparr>)"

subsection \<open>What the handler calls outside the file\<close>

text \<open>
  \<open>getAPIkey\<close> and \<open>ServeHTTP\<close> call Go's standard library (\<open>net/http\<close>, \<open>net/url\<close>,
  \<open>x/crypto/sha3\<close>) and the package \<open>expr\<close>, none of which is part of the sources. They
  are parameters of the model, so every theorem below holds whatever they compute:
  \<^item> \<open>CanonicalMIMEHeaderKey\<close>: the canonical form \<open>http.Header.Get\<close> looks a name up under;
  \<^item> \<open>url_Parse\<close>: \<open>url.Parse(uri)\<close>, an error or the function \<open>parsedURI.Query().Get\<close>;
  \<^item> \<open>readCookie\<close>: \<open>req.Cookie(name)\<close>, the value of the named cookie or \<open>None\<close> for
    \<open>http.ErrNoCookie\<close>;
  \<^item> \<open>ShakeSum256\<close>: \<open>fmt.Sprintf("%x", hash)\<close> after \<open>sha3.ShakeSum256(hash, apiKey)\<close>
    with 64 bytes of output;
  \<^item> \<open>PluckClaims\<close>: \<open>expr.PluckClaims\<close>, an error or the headers to forward, in the order
    the handler's loop visits them.
\<close>

type_synonym http_Header = "string \<rightharpoonup> string list"

record deps =
  CanonicalMIMEHeaderKey :: "string \<Rightarrow> string"
  url_Parse :: "string \<Rightarrow> error + (string \<Rightarrow> string)"
  readCookie :: "http_Header \<Rightarrow> string \<Rightarrow> string option"
  ShakeSum256 :: "string \<Rightarrow> string"
  PluckClaims ::
    "(string \<rightharpoonup> string) \<Rightarrow> (string \<rightharpoonup> string) \<Rightarrow> error + (string \<times> string list) list"

text \<open>\<open>hdr.Get(k)\<close>: the first value stored under the canonical name, or the empty string.\<close>

definition Header_Get :: "deps \<Rightarrow> http_Header \<Rightarrow> string \<Rightarrow> string" where
  "Header_Get d hdr k =
     (case hdr (CanonicalMIMEHeaderKey d k) of
        None \<Rightarrow> ''''
      | Some [] \<Rightarrow> ''''
      | Some (v # _) \<Rightarrow> v)"

subsection \<open>originalURI, getAPIkey, ServeHTTP\<close>

definition originalURI :: "deps \<Rightarrow> http_Header \<Rightarrow> string" where
  "originalURI d hdr =
     (let xfu = Header_Get d hdr ''X-Forwarded-Uri'' in
      if xfu \<noteq> '''' then xfu else Header_Get d hdr ''X-Original-Url'')"

text \<open>
  The three blocks of \<open>getAPIkey\<close> run in sequence and each one returns or falls through
  to the next; \<open>fromCookie\<close> is the third block with the final \<open>return\<close>, \<open>fromQuery\<close> the
  second block followed by it. A request is its header map.
\<close>

definition getAPIkey :: "deps \<Rightarrow> Handler \<Rightarrow> http_Header \<Rightarrow> error + string" where
  "getAPIkey d h req =
     (let fromCookie =
            (if cookie h \<noteq> '''' then
               (case readCookie d req (cookie h) of
                  None \<Rightarrow> Inl ErrMissingAPIKey
                | Some v \<Rightarrow> if v \<noteq> '''' then Inr v else Inl ErrMissingAPIKey)
             else Inl ErrMissingAPIKey);
          fromQuery =
            (if query h \<noteq> '''' then
               (let uri = originalURI d req in
                if uri \<noteq> '''' then
                  (case url_Parse d uri of
                     Inl err \<Rightarrow> Inl err
                   | Inr get \<Rightarrow> if get (query h) \<noteq> '''' then Inr (get (query h)) else fromCookie)
                else fromCookie)
             else fromCookie)
      in if header h \<noteq> '''' then
           (let hdr = Header_Get d req (header h) in
            if hdr \<noteq> '''' then Inr hdr else fromQuery)
         else fromQuery)"

text \<open>
  The response: the status written and the headers added with \<open>rw.Header().Add\<close>
  (\<open>http.Error\<close> also writes a body and two headers of its own, which are left out).
\<close>

record Response =
  StatusCode :: nat
  added_Header :: "(string \<times> string) list"

definition ServeHTTP :: "deps \<Rightarrow> Handler \<Rightarrow> http_Header \<Rightarrow> Response" where
  "ServeHTTP d h req =
     (case getAPIkey d h req of
        Inl err \<Rightarrow> \<lparr>StatusCode = 401, added_Header = []\<rparr>
      | Inr apiKey \<Rightarrow>
          (case keys h (ShakeSum256 d apiKey) of
             None \<Rightarrow> \<lparr>StatusCode = 401, added_Header = []\<rparr>
           | Some k \<Rightarrow>
               (case fwdHeaders h of
                  None \<Rightarrow> \<lparr>StatusCode = 200, added_Header = []\<rparr>
                | Some fh \<Rightarrow>
                    (case PluckClaims d fh (key_Metadata k) of
                       Inl err \<Rightarrow> \<lparr>StatusCode = 500, added_Header = []\<rparr>
                     | Inr hdrs \<Rightarrow>
                         \<lparr>StatusCode = 200,
                          added_Header = concat (map (\<lambda>(n, vals). map (Pair n) vals) hdrs)\<rparr>))))"

text \<open>
  Stated from the claim about the serving decision, for comparison with \<open>getAPIkey\<close>: the
  candidate is the value of the first configured location that yields a non-empty one
  (header, then query parameter of the original URI, then cookie), and the empty string
  when no location yields one. A URI that does not parse yields no query parameter.
\<close>

definition candidate_header :: "deps \<Rightarrow> Handler \<Rightarrow> http_Header \<Rightarrow> string" where
  "candidate_header d h req = (if header h \<noteq> '''' then Header_Get d req (header h) else '''')"

definition candidate_query :: "deps \<Rightarrow> Handler \<Rightarrow> http_Header \<Rightarrow> string" where
  "candidate_query d h req =
     (if query h \<noteq> '''' \<and> originalURI d req \<noteq> '''' then
        (case url_Parse d (originalURI d req) of Inl err \<Rightarrow> '''' | Inr get \<Rightarrow> get (query h))
      else '''')"

definition candidate_cookie :: "deps \<Rightarrow> Handler \<Rightarrow> http_Header \<Rightarrow> string" where
  "candidate_cookie d h req =
     (if cookie h \<noteq> '''' then
        (case readCookie d req (cookie h) of None \<Rightarrow> '''' | Some v \<Rightarrow> v)
      else '''')"

definition candidate :: "deps \<Rightarrow> Handler \<Rightarrow> http_Header \<Rightarrow> string" where
  "candidate d h req =
     (if candidate_header d h req \<noteq> '''' then candidate_header d h req
      else if candidate_query d h req \<noteq> '''' then candidate_query d h req
      else candidate_cookie d h req)"

text \<open>
  The one case in which \<open>getAPIkey\<close> does not reach the cookie although header and query
  gave nothing: the original URI is there and \<open>url.Parse\<close> refuses it.
\<close>

definition uri_unparsable :: "deps \<Rightarrow> Handler \<Rightarrow> http_Header \<Rightarrow> bool" where
  "uri_unparsable d h req \<longleftrightarrow>
     candidate_header d h req = '''' \<and> query h \<noteq> '''' \<and> originalURI d req \<noteq> '''' \<and>
     isl (url_Parse d (originalURI d req))"

subsection \<open>The record stored for a key entry\<close>

text \<open>
  The value \<open>key{ID: k.ID, Metadata: md}\<close> that the loop of \<open>NewHandler\<close> stores under
  \<open>k.Value\<close>, named so that theorems can speak about it.
\<close>

definition stored_key :: "Key \<Rightarrow> key" where
  "stored_key k = \<lparr>key_ID = ID k, key_Metadata = (Map.empty ++ Metadata k)(''_id'' \<mapsto> ID k)\<rparr>"

subsection \<open>Concrete configurations and requests\<close>

text \<open>
  \<open>go_table\<close> fixes the library parameters on the strings the examples use, with the values
  Go computes there: \<open>url.Parse("%")\<close> fails (invalid URL escape), the query of
  \<open>/get?key=secret\<close> has \<open>key = secret\<close>, the header \<open>Cookie: token=secret\<close> holds the cookie
  \<open>token\<close>, and \<open>hash_secret\<close> is the hexadecimal 64-byte SHAKE-256 output of \<open>secret\<close>.
  The header names used are in canonical form already. Every other entry is filler.
\<close>

definition hash_secret :: string where
  "hash_secret =
     ''cb6e4e469808cf7337640076050cb0751d420376ff6a413e8ece0a3f3f04a81e'' @
     ''caf809c06b5a98f03297addbfae4d9407f03441a16832af22d535569dbbb4092''"

definition go_table :: deps where
  "go_table =
     \<lparr>CanonicalMIMEHeaderKey = (\<lambda>k. k),
      url_Parse = (\<lambda>uri.
        if uri = ''%'' then Inl (ErrExternal ''invalid URL escape'')
        else if uri = ''/get?key=secret'' then Inr (\<lambda>n. if n = ''key'' then ''secret'' else '''')
        else Inr (\<lambda>n. '''')),
      readCookie = (\<lambda>hdr n.
        if hdr ''Cookie'' = Some [''token=secret''] \<and> n = ''token'' then Some ''secret''
        else None),
      ShakeSum256 = (\<lambda>s. if s = ''secret'' then hash_secret else ''''),
      PluckClaims = (\<lambda>fh md. Inr [])\<rparr>"

definition cfg_ok :: Config where
  "cfg_ok =
     \<lparr>Header = ''X-Api-Key'', Query = ''key'', Cookie = ''token'',
      Keys = [\<lparr>ID = ''user'', Metadata = Map.empty, Value = hash_secret\<rparr>],
      ForwardHeaders = None\<rparr>"

definition cfg_dup_id :: Config where
  "cfg_dup_id =
     \<lparr>Header = ''X-Api-Key'', Query = '''', Cookie = '''',
      Keys = [\<lparr>ID = ''user'', Metadata = Map.empty, Value = ''v1''\<rparr>,
              \<lparr>ID = ''user'', Metadata = Map.empty, Value = ''v2''\<rparr>],
      ForwardHeaders = None\<rparr>"

definition key_a :: Key where
  "key_a = \<lparr>ID = ''a'', Metadata = [''_id'' \<mapsto> ''forged''], Value = hash_secret\<rparr>"

definition key_b :: Key where
  "key_b = \<lparr>ID = ''b'', Metadata = [''team'' \<mapsto> ''blue''], Value = hash_secret\<rparr>"

definition cfg_dup_value :: Config where
  "cfg_dup_value =
     \<lparr>Header = ''X-Api-Key'', Query = '''', Cookie = '''',
      Keys = [key_a, key_b],
      ForwardHeaders = None\<rparr>"

text \<open>
  A request without API key header whose original URI does not parse and whose cookie holds
  the secret, and the handler of \<open>cfg_ok\<close> (as \<open>NewHandler\<close> builds it).
\<close>

definition req_bad_uri :: http_Header where
  "req_bad_uri = [''X-Forwarded-Uri'' \<mapsto> [''%''], ''Cookie'' \<mapsto> [''token=secret'']]"

definition req_cookie :: http_Header where
  "req_cookie = [''Cookie'' \<mapsto> [''token=secret'']]"

definition req_header :: http_Header where
  "req_header = [''X-Api-Key'' \<mapsto> [''secret'']]"

definition handler_ok :: Handler where
  "handler_ok =
     \<lparr>name = ''acp'', header = ''X-Api-Key'', query = ''key'', cookie = ''token'',
      keys = [hash_secret \<mapsto> \<lparr>key_ID = ''user'', key_Metadata = [''_id'' \<mapsto> ''user'']\<rparr>],
      fwdHeaders = None\<rparr>"

text \<open>The handler of \<open>cfg_dup_value\<close> (as \<open>NewHandler\<close> builds it).\<close>

definition handler_dup_value :: Handler where
  "handler_dup_value =
     \<lparr>name = ''acp'', header = ''X-Api-Key'', query = '''', cookie = '''',
      keys = [hash_secret \<mapsto>
        \<lparr>key_ID = ''b'', key_Metadata = [''team'' \<mapsto> ''blue'', ''_id'' \<mapsto> ''b'']\<rparr>],
      fwdHeaders = None\<rparr>"

section \<open>The Nginx ingress reviewer (package reviewer)\<close>

subsection \<open>Data\<close>

text \<open>
  The admission review carries the kind of the resource and the raw (JSON) objects;
  \<open>ar.Request\<close> is a pointer, \<open>None\<close> when nil. Of the object metadata the reviewer reads
  the namespace and the annotations. An annotation map is a Go map that the reviewer also
  writes, so its nil value is kept apart: \<open>None\<close> is the nil map (no annotations in the
  JSON), \<open>Some m\<close> a map with the entries \<open>m\<close>.
\<close>

record GroupVersionKind =
  Group :: string
  Version :: string
  Kind :: string

record AdmissionRequest =
  Request_Kind :: GroupVersionKind
  Object_Raw :: string
  OldObject_Raw :: string

record AdmissionReview =
  Request :: "AdmissionRequest option"

type_synonym annotations = "(string \<rightharpoonup> string) option"

record ObjectMeta =
  Namespace :: string
  Annotations :: annotations

record nginxSnippets =
  AuthURL :: string
  ConfigurationSnippet :: string
  ServerSnippets :: string
  LocationSnippets :: string

text \<open>
  The two collaborators of the reviewer, as the interfaces \<open>IngressClasses\<close> and
  \<open>PolicyGetter\<close> give them; \<open>'c\<close> is the type of a policy configuration (\<open>*acp.Config\<close>).
\<close>

record IngressClasses =
  GetController :: "string \<Rightarrow> string"
  GetDefaultController :: "error + string"

record 'c PolicyGetter =
  GetConfig :: "string \<Rightarrow> error + 'c"

record 'c NginxIngress =
  agentAddress :: string
  ingressClasses :: IngressClasses
  policies :: "'c PolicyGetter"

text \<open>
  What the reviewer uses of its package and of \<open>acp\<close>, \<open>ingclass\<close> and \<open>encoding/json\<close>
  without the sources holding it: the kind predicates, \<open>parseIngressClass\<close> (the class name
  and the class annotation of the raw object), four constants, the decoding of the object
  metadata, \<open>acp.CanonicalName\<close>, \<open>genSnippets\<close> and \<open>mergeSnippets\<close>. They are parameters
  of the model: a theorem that does not constrain them holds whatever they are.
\<close>

record 'c reviewer_pkg =
  isNetV1Ingress :: "GroupVersionKind \<Rightarrow> bool"
  isNetV1Beta1Ingress :: "GroupVersionKind \<Rightarrow> bool"
  isExtV1Beta1Ingress :: "GroupVersionKind \<Rightarrow> bool"
  parseIngressClass :: "string \<Rightarrow> error + string \<times> string"
  defaultAnnotationNginx :: string
  ControllerTypeNginxOfficial :: string
  ControllerTypeNginxCommunity :: string
  AnnotationNeoAuth :: string
  Unmarshal_metadata :: "string \<Rightarrow> error + ObjectMeta"
  CanonicalName :: "string \<Rightarrow> string \<Rightarrow> error + string"
  genSnippets :: "string \<Rightarrow> 'c \<Rightarrow> string \<Rightarrow> error + nginxSnippets"
  mergeSnippets :: "nginxSnippets \<Rightarrow> annotations \<Rightarrow> nginxSnippets"

subsection \<open>CanReview\<close>

definition isNginx :: "'c reviewer_pkg \<Rightarrow> string \<Rightarrow> bool" where
  "isNginx pkg ctrlr \<longleftrightarrow>
     ctrlr = ControllerTypeNginxOfficial pkg \<or> ctrlr = ControllerTypeNginxCommunity pkg"

definition CanReview :: "'c reviewer_pkg \<Rightarrow> 'c NginxIngress \<Rightarrow> AdmissionReview \<Rightarrow> error + bool" where
  "CanReview pkg r ar =
     (case Request ar of
        None \<Rightarrow> Inl PanicNilPointer
      | Some rq \<Rightarrow>
          (let resource = Request_Kind rq in
           if \<not> isNetV1Ingress pkg resource \<and> \<not> isNetV1Beta1Ingress pkg resource \<and>
              \<not> isExtV1Beta1Ingress pkg resource
           then Inr False
           else
             (case parseIngressClass pkg (Object_Raw rq) of
                Inl err \<Rightarrow> Inl (ErrWrap ''parse ingress class'' err)
              | Inr (ingClassName, ingClassAnno) \<Rightarrow>
                  (case GetDefaultController (ingressClasses r) of
                     Inl err \<Rightarrow> Inl (ErrWrap ''get default controller'' err)
                   | Inr defaultCtrlr \<Rightarrow>
                       if ingClassName \<noteq> '''' then
                         Inr (isNginx pkg (GetController (ingressClasses r) ingClassName))
                       else if ingClassAnno \<noteq> '''' then
                         (if ingClassAnno = defaultAnnotationNginx pkg then Inr True
                          else Inr (isNginx pkg (GetController (ingressClasses r) ingClassAnno)))
                       else Inr (isNginx pkg defaultCtrlr)))))"

subsection \<open>The managed annotations\<close>

definition key_auth_url :: string where
  "key_auth_url = ''nginx.ingress.kubernetes.io/auth-url''"

definition key_configuration_snippet :: string where
  "key_configuration_snippet = ''nginx.ingress.kubernetes.io/configuration-snippet''"

definition key_server_snippets :: string where
  "key_server_snippets = ''nginx.org/server-snippets''"

definition key_location_snippets :: string where
  "key_location_snippets = ''nginx.org/location-snippets''"

definition managed_keys :: "string set" where
  "managed_keys =
     {key_auth_url, key_configuration_snippet, key_server_snippets, key_location_snippets}"

text \<open>
  \<open>anno[k]\<close> reads the empty string for a missing key and for the nil map;
  \<open>delete(anno, k)\<close> does nothing on the nil map.
\<close>

definition anno_get :: "annotations \<Rightarrow> string \<Rightarrow> string" where
  "anno_get anno k =
     (case anno of
        None \<Rightarrow> ''''
      | Some m \<Rightarrow> (case m k of None \<Rightarrow> '''' | Some v \<Rightarrow> v))"

definition anno_delete :: "annotations \<Rightarrow> string \<Rightarrow> annotations" where
  "anno_delete anno k = (case anno of None \<Rightarrow> None | Some m \<Rightarrow> Some (m(k := None)))"

definition noPatchRequired :: "annotations \<Rightarrow> nginxSnippets \<Rightarrow> bool" where
  "noPatchRequired anno snippets \<longleftrightarrow>
     anno_get anno key_auth_url = AuthURL snippets \<and>
     anno_get anno key_configuration_snippet = ConfigurationSnippet snippets \<and>
     anno_get anno key_server_snippets = ServerSnippets snippets \<and>
     anno_get anno key_location_snippets = LocationSnippets snippets"

text \<open>One \<open>if anno[k] == "" { delete(anno, k) }\<close>, and the four of them in the order of the source.\<close>

definition clearEmpty :: "string \<Rightarrow> annotations \<Rightarrow> annotations" where
  "clearEmpty k anno = (if anno_get anno k = '''' then anno_delete anno k else anno)"

definition clearEmptyAnnotations :: "annotations \<Rightarrow> annotations" where
  "clearEmptyAnnotations anno =
     clearEmpty key_configuration_snippet
       (clearEmpty key_auth_url
         (clearEmpty key_location_snippets
           (clearEmpty key_server_snippets anno)))"

text \<open>
  \<open>setAnnotations\<close> updates the map in place; the model returns the updated map. Its first
  statement assigns to an entry, which panics on the nil map.
\<close>

definition setAnnotations :: "annotations \<Rightarrow> nginxSnippets \<Rightarrow> error + annotations" where
  "setAnnotations anno snippets =
     (case anno of
        None \<Rightarrow> Inl PanicNilMap
      | Some m \<Rightarrow>
          Inr (clearEmptyAnnotations
            (Some (m(key_auth_url \<mapsto> AuthURL snippets,
                     key_configuration_snippet \<mapsto> ConfigurationSnippet snippets,
                     key_server_snippets \<mapsto> ServerSnippets snippets,
                     key_location_snippets \<mapsto> LocationSnippets snippets)))))"

subsection \<open>Review\<close>

text \<open>The zero value of \<open>var snippets nginxSnippets\<close>.\<close>

definition zero_snippets :: nginxSnippets where
  "zero_snippets =
     \<lparr>AuthURL = '''', ConfigurationSnippet = '''', ServerSnippets = '''', LocationSnippets = ''''\<rparr>"

text \<open>
  \<open>Review\<close> in three parts. \<open>compiled_snippets\<close> is the policy lookup (from
  \<open>polName := ...\<close> to the end of the \<open>if\<close>): no policy annotation leaves the zero value, a
  policy annotation is resolved and compiled, and each of the three calls can fail.
  \<open>desired_snippets\<close> adds the call of \<open>mergeSnippets\<close>. \<open>Review\<close> decodes the metadata,
  compares and builds the patch; the patch is kept as data (\<open>json.Marshal\<close> of a list of
  maps of strings does not fail).
\<close>

definition compiled_snippets ::
  "'c reviewer_pkg \<Rightarrow> 'c NginxIngress \<Rightarrow> ObjectMeta \<Rightarrow> error + nginxSnippets" where
  "compiled_snippets pkg r meta =
     (let polName = anno_get (Annotations meta) (AnnotationNeoAuth pkg) in
      if polName = '''' then Inr zero_snippets
      else
        (case CanonicalName pkg polName (Namespace meta) of
           Inl err \<Rightarrow> Inl err
         | Inr canonicalPolName \<Rightarrow>
             (case GetConfig (policies r) canonicalPolName of
                Inl err \<Rightarrow> Inl err
              | Inr polCfg \<Rightarrow> genSnippets pkg canonicalPolName polCfg (agentAddress r))))"

definition desired_snippets ::
  "'c reviewer_pkg \<Rightarrow> 'c NginxIngress \<Rightarrow> ObjectMeta \<Rightarrow> error + nginxSnippets" where
  "desired_snippets pkg r meta =
     (case compiled_snippets pkg r meta of
        Inl err \<Rightarrow> Inl err
      | Inr snippets \<Rightarrow> Inr (mergeSnippets pkg snippets (Annotations meta)))"

record patch =
  patch_op :: string
  patch_path :: string
  patch_value :: annotations

definition Review ::
  "'c reviewer_pkg \<Rightarrow> 'c NginxIngress \<Rightarrow> AdmissionReview \<Rightarrow> error + patch list option" where
  "Review pkg r ar =
     (case Request ar of
        None \<Rightarrow> Inl PanicNilPointer
      | Some rq \<Rightarrow>
          (case Unmarshal_metadata pkg (Object_Raw rq) of
             Inl err \<Rightarrow> Inl (ErrWrap ''unmarshal reviewed ingress metadata'' err)
           | Inr meta \<Rightarrow>
               (case desired_snippets pkg r meta of
                  Inl err \<Rightarrow> Inl err
                | Inr snippets \<Rightarrow>
                    if noPatchRequired (Annotations meta) snippets then Inr None
                    else
                      (case setAnnotations (Annotations meta) snippets of
                         Inl err \<Rightarrow> Inl err
                       | Inr anno \<Rightarrow>
                           Inr (Some [\<lparr>patch_op = ''replace'',
                                       patch_path = ''/metadata/annotations'',
                                       patch_value = anno\<rparr>])))))"

text \<open>
  Modelled from the spec: \<open>mergeSnippets\<close>, whose code is not in the sources. The spec keeps
  foreign state at the level of whole annotations: the desired state of the Nginx compiler is
  a set of named annotation values, absent or empty categories are omitted from it, and in
  its scenario a policy without snippets applied to an object with all four annotations set
  gives a patch holding the authentication URL alone. So the merged value of each managed
  annotation is the compiled one.
\<close>

definition mergeSnippets_spec :: "nginxSnippets \<Rightarrow> annotations \<Rightarrow> nginxSnippets" where
  "mergeSnippets_spec snippets anno = snippets"

subsection \<open>A concrete reviewer\<close>

text \<open>
  Values for the parameters, for the examples: raw objects are named rather than written
  out in JSON, and the decoding functions are tables over these names.
\<close>

definition ingress_v1 :: GroupVersionKind where
  "ingress_v1 = \<lparr>Group = ''networking.k8s.io'', Version = ''v1'', Kind = ''Ingress''\<rparr>"

definition annotations_applied :: "string \<rightharpoonup> string" where
  "annotations_applied =
     [''hub.traefik.io/access-control-policy'' \<mapsto> ''my-policy'',
      ''custom-annotation'' \<mapsto> ''foobar'',
      key_auth_url \<mapsto> ''http://agent/my-policy@ns'']"

definition annotations_stale :: "string \<rightharpoonup> string" where
  "annotations_stale =
     [''custom-annotation'' \<mapsto> ''foobar'',
      key_auth_url \<mapsto> ''http://agent/my-policy@ns'',
      key_server_snippets \<mapsto> ''location /auth {}'']"

definition pkg_example :: "unit reviewer_pkg" where
  "pkg_example =
     \<lparr>isNetV1Ingress = (\<lambda>k. k = ingress_v1),
      isNetV1Beta1Ingress = (\<lambda>k. False),
      isExtV1Beta1Ingress = (\<lambda>k. False),
      parseIngressClass = (\<lambda>raw.
        if raw = ''ingress with class name'' then Inr (''my-class'', ''nginx'')
        else if raw = ''ingress with class annotation'' then Inr ('''', ''nginx'')
        else Inr ('''', '''')),
      defaultAnnotationNginx = ''nginx'',
      ControllerTypeNginxOfficial = ''nginx.org/ingress-controller'',
      ControllerTypeNginxCommunity = ''k8s.io/ingress-nginx'',
      AnnotationNeoAuth = ''hub.traefik.io/access-control-policy'',
      Unmarshal_metadata = (\<lambda>raw.
        if raw = ''ingress with policy applied''
        then Inr \<lparr>Namespace = ''ns'', Annotations = Some annotations_applied\<rparr>
        else if raw = ''ingress with policy cleared''
        then Inr \<lparr>Namespace = ''ns'', Annotations = Some annotations_stale\<rparr>
        else Inr \<lparr>Namespace = ''ns'', Annotations = None\<rparr>),
      CanonicalName = (\<lambda>polName ns. Inr (polName @ ''@'' @ ns)),
      genSnippets = (\<lambda>polName polCfg addr.
        Inr \<lparr>AuthURL = addr @ ''/'' @ polName, ConfigurationSnippet = '''',
             ServerSnippets = '''', LocationSnippets = ''''\<rparr>),
      mergeSnippets = mergeSnippets_spec\<rparr>"

definition reviewer_example :: "unit NginxIngress" where
  "reviewer_example =
     \<lparr>agentAddress = ''http://agent'',
      ingressClasses =
        \<lparr>GetController = (\<lambda>c. if c = ''my-class'' then ''traefik'' else ''''),
         GetDefaultController = Inr ''k8s.io/ingress-nginx''\<rparr>,
      policies = \<lparr>GetConfig = (\<lambda>polName. Inr ())\<rparr>\<rparr>"

text \<open>The same reviewer over a registry whose default controller cannot be determined.\<close>

definition reviewer_no_default :: "unit NginxIngress" where
  "reviewer_no_default =
     \<lparr>agentAddress = ''http://agent'',
      ingressClasses =
        \<lparr>GetController = (\<lambda>c. if c = ''my-class'' then ''traefik'' else ''''),
         GetDefaultController = Inl (ErrExternal ''multiple default ingress classes'')\<rparr>,
      policies = \<lparr>GetConfig = (\<lambda>polName. Inr ())\<rparr>\<rparr>"

definition review_of :: "string \<Rightarrow> AdmissionReview" where
  "review_of raw =
     \<lparr>Request = Some \<lparr>Request_Kind = ingress_v1, Object_Raw = raw, OldObject_Raw = ''''\<rparr>\<rparr>"

section \<open>The Traefik route rewrite\<close>

text \<open>
  Modelled from the spec: the data of the route-level rewrite of the Traefik compiler. The
  reviewer of Traefik's IngressRoute and the types of its CRD are not in the sources; only
  the reviewer's test is. A route has the fields the test fills, and a reference to a
  middleware is a name and a namespace.
\<close>

record MiddlewareRef =
  ref_Name :: string
  ref_Namespace :: string

record Service =
  svc_Name :: string
  svc_Namespace :: string
  svc_Kind :: string

record Route =
  Match :: string
  route_Kind :: string
  Priority :: int
  Services :: "Service list"
  Middlewares :: "MiddlewareRef list"

text \<open>
  Modelled from the spec: "swap that single reference for the new policy's managed-resource
  reference, preserving the position and all unrelated references verbatim, in original
  order". The reference swapped is the first one equal to the previous policy's.
\<close>

fun swapRef :: "MiddlewareRef \<Rightarrow> MiddlewareRef \<Rightarrow> MiddlewareRef list \<Rightarrow> MiddlewareRef list" where
  "swapRef old new [] = []"
| "swapRef old new (m # ms) = (if m = old then new # ms else m # swapRef old new ms)"

text \<open>
  Modelled from the spec: the rewrite of one route. \<open>prev\<close> is the managed reference of the
  previous policy, known only on an update whose previous object names a policy. A route that
  references it has that reference swapped; a route that does not gets the new reference
  appended at the end of its list, unless it is there already (a review of an object with the
  policy applied changes nothing).
\<close>

definition rewriteRoute :: "MiddlewareRef option \<Rightarrow> MiddlewareRef \<Rightarrow> Route \<Rightarrow> Route" where
  "rewriteRoute prev new rt =
     (if (case prev of None \<Rightarrow> False | Some old \<Rightarrow> old \<in> set (Middlewares rt))
      then rt\<lparr>Middlewares := swapRef (the prev) new (Middlewares rt)\<rparr>
      else if new \<in> set (Middlewares rt) then rt
      else rt\<lparr>Middlewares := Middlewares rt @ [new]\<rparr>)"

text \<open>
  Modelled from the spec: the patch of the Traefik reviewer for an object that names a policy,
  "a single whole-field replace operation" on the route list, and none when the
  rewritten routes equal the observed ones.
\<close>

record route_patch =
  route_patch_op :: string
  route_patch_path :: string
  route_patch_value :: "Route list"

definition TraefikIngressRoute_Review ::
  "MiddlewareRef option \<Rightarrow> MiddlewareRef \<Rightarrow> Route list \<Rightarrow> route_patch list option" where
  "TraefikIngressRoute_Review prev new routes =
     (let routes' = map (rewriteRoute prev new) routes in
      if routes' = routes then None
      else Some [\<lparr>route_patch_op = ''replace'', route_patch_path = ''/spec/routes'',
                  route_patch_value = routes'\<rparr>])"

text \<open>The route of the reviewer's test, with the references of the spec's scenario.\<close>

definition ref_custom :: MiddlewareRef where
  "ref_custom = \<lparr>ref_Name = ''custom'', ref_Namespace = ''ns''\<rparr>"

definition ref_old :: MiddlewareRef where
  "ref_old = \<lparr>ref_Name = ''zz-old-policy-ns'', ref_Namespace = ''ns''\<rparr>"

definition ref_new :: MiddlewareRef where
  "ref_new = \<lparr>ref_Name = ''zz-new-policy-ns'', ref_Namespace = ''ns''\<rparr>"

definition ref_foo :: MiddlewareRef where
  "ref_foo = \<lparr>ref_Name = ''foo'', ref_Namespace = ''ns''\<rparr>"

definition route_example :: "MiddlewareRef list \<Rightarrow> Route" where
  "route_example refs =
     \<lparr>Match = ''match'', route_Kind = ''kind'', Priority = 2,
      Services = [\<lparr>svc_Name = ''Name'', svc_Namespace = ''ns'', svc_Kind = ''kind''\<rparr>],
      Middlewares = refs\<rparr>"

section \<open>Properties of NewHandler\<close>

lemma NewHandler_loop_fails_iff:
  "isl (NewHandler_loop ks tbl ids) \<longleftrightarrow>
     (\<exists>k \<in> set ks. ID k = '''' \<or> Value k = '''') \<or>
     \<not> distinct (map ID ks) \<or> (\<exists>k \<in> set ks. ID k \<in> ids)"
proof (induction ks arbitrary: tbl ids)
  case Nil
  show ?case by simp
next
  case (Cons k rest)
  show ?case
  proof (cases "ID k = '''' \<or> Value k = ''''")
    case True
    then show ?thesis by auto
  next
    case ok: False
    show ?thesis
    proof (cases "ID k \<in> ids")
      case True
      with ok show ?thesis by auto
    next
      case False
      with ok have step: "NewHandler_loop (k # rest) tbl ids =
          NewHandler_loop rest
            (tbl(Value k \<mapsto> \<lparr>key_ID = ID k,
               key_Metadata = (Map.empty ++ Metadata k)(''_id'' \<mapsto> ID k)\<rparr>))
            (insert (ID k) ids)"
        by (simp add: Let_def)
      show ?thesis
        unfolding step Cons.IH using ok False by (auto simp: image_iff) metis+
    qed
  qed
qed

text \<open>
  C4. \<open>NewHandler\<close> returns an error (and no handler) exactly when the configuration sets
  none of header, query and cookie, or some key entry has an empty ID or an empty value, or two
  key entries share an ID; for every other configuration it returns a handler.
\<close>

theorem NewHandler_error_iff:
  "(\<exists>e. NewHandler cfg nm = Inl e) \<longleftrightarrow>
     (Header cfg = '''' \<and> Query cfg = '''' \<and> Cookie cfg = '''') \<or>
     (\<exists>k \<in> set (Keys cfg). ID k = '''' \<or> Value k = '''') \<or>
     \<not> distinct (map ID (Keys cfg))"
proof -
  have "(\<exists>e. NewHandler cfg nm = Inl e) \<longleftrightarrow>
      (Header cfg = '''' \<and> Query cfg = '''' \<and> Cookie cfg = '''') \<or>
      isl (NewHandler_loop (Keys cfg) Map.empty {})"
    by (auto simp: NewHandler_def isl_def split: sum.splits)
  then show ?thesis
    by (simp add: NewHandler_loop_fails_iff)
qed

theorem NewHandler_error_iff_witness:
  "(\<exists>e. NewHandler cfg_dup_id ''acp'' = Inl e) \<and> (\<nexists>e. NewHandler cfg_ok ''acp'' = Inl e)"
  using NewHandler_error_iff [of cfg_dup_id "''acp''"] NewHandler_error_iff [of cfg_ok "''acp''"]
  by (simp add: cfg_dup_id_def cfg_ok_def hash_secret_def)

section \<open>The serving decision\<close>

lemma getAPIkey_unparsable:
  "uri_unparsable d h req \<Longrightarrow> isl (getAPIkey d h req)"
  by (auto simp: uri_unparsable_def getAPIkey_def candidate_header_def Let_def isl_def
      split: sum.splits if_splits)

lemma getAPIkey_candidate:
  "\<not> uri_unparsable d h req \<Longrightarrow>
   getAPIkey d h req =
     (if candidate d h req = '''' then Inl ErrMissingAPIKey else Inr (candidate d h req))"
  by (auto simp: uri_unparsable_def getAPIkey_def candidate_def candidate_header_def
      candidate_query_def candidate_cookie_def Let_def isl_def
      split: sum.splits option.splits)

text \<open>
  C3 (counterexample). The handler of \<open>cfg_ok\<close> looks in header, query and cookie. The
  request has no API key header, an original URI that \<open>url.Parse\<close> refuses and a cookie
  holding the secret, whose hash is a key of the table. The claim's selection reaches the
  cookie and accepts; \<open>getAPIkey\<close> returns the parse error and \<open>ServeHTTP\<close> answers 401.
\<close>

theorem ServeHTTP_bad_uri_rejects:
  "NewHandler cfg_ok ''acp'' = Inr handler_ok \<and>
   candidate go_table handler_ok req_bad_uri = ''secret'' \<and>
   keys handler_ok (ShakeSum256 go_table ''secret'') \<noteq> None \<and>
   StatusCode (ServeHTTP go_table handler_ok req_bad_uri) = 401"
  by (simp add: NewHandler_def cfg_ok_def handler_ok_def go_table_def req_bad_uri_def
      candidate_def candidate_header_def candidate_query_def candidate_cookie_def
      ServeHTTP_def getAPIkey_def originalURI_def Header_Get_def hash_secret_def)

text \<open>
  C3 (amended). The handler takes as candidate the value of the first location, in the order
  header, query parameter of the original URI (\<open>X-Forwarded-Uri\<close>, else \<open>X-Original-Url\<close>),
  cookie, that is configured and yields a non-empty value, and never looks past it. If header
  gave nothing, a query parameter is configured and the original URI is non-empty but does
  not parse, it answers 401 without reading the cookie. Otherwise it answers 401 when no
  location yields a candidate or the hex SHAKE-256 hash of the candidate is not a key of the
  table; on a hit it answers 200, unless forward headers are configured and deriving them
  from the matched key's metadata fails, which answers 500.
\<close>

theorem ServeHTTP_status:
  "StatusCode (ServeHTTP d h req) =
     (if uri_unparsable d h req then 401
      else if candidate d h req = '''' then 401
      else case keys h (ShakeSum256 d (candidate d h req)) of
        None \<Rightarrow> 401
      | Some k \<Rightarrow>
          (case fwdHeaders h of
             None \<Rightarrow> 200
           | Some fh \<Rightarrow> if isl (PluckClaims d fh (key_Metadata k)) then 500 else 200))"
proof (cases "uri_unparsable d h req")
  case True
  then obtain e where "getAPIkey d h req = Inl e"
    using getAPIkey_unparsable [of d h req] by (auto simp: isl_def)
  with True show ?thesis by (simp add: ServeHTTP_def)
next
  case False
  show ?thesis
    using False getAPIkey_candidate [OF False]
    by (auto simp: ServeHTTP_def isl_def split: option.splits sum.splits)
qed

theorem ServeHTTP_status_witness:
  "StatusCode (ServeHTTP go_table handler_ok req_header) = 200 \<and>
   StatusCode (ServeHTTP go_table handler_ok req_cookie) = 200 \<and>
   StatusCode (ServeHTTP go_table handler_ok Map.empty) = 401"
  using ServeHTTP_status [of go_table handler_ok req_header]
    ServeHTTP_status [of go_table handler_ok req_cookie]
    ServeHTTP_status [of go_table handler_ok Map.empty]
  by (simp add: handler_ok_def go_table_def req_header_def req_cookie_def
      uri_unparsable_def candidate_def candidate_header_def candidate_query_def
      candidate_cookie_def originalURI_def Header_Get_def hash_secret_def)

section \<open>The key table built by NewHandler\<close>

lemma NewHandler_loop_table:
  "NewHandler_loop ks tbl ids = Inr tbl' \<Longrightarrow>
   tbl' = tbl ++ map_of (rev (map (\<lambda>k. (Value k, stored_key k)) ks))"
proof (induction ks arbitrary: tbl ids)
  case Nil
  then show ?case by simp
next
  case (Cons k rest)
  from Cons.prems have run: "NewHandler_loop rest (tbl(Value k \<mapsto> stored_key k)) (insert (ID k) ids) = Inr tbl'"
    by (simp add: Let_def stored_key_def split: if_splits)
  have "tbl' = tbl(Value k \<mapsto> stored_key k) ++ map_of (rev (map (\<lambda>k. (Value k, stored_key k)) rest))"
    by (rule Cons.IH [OF run])
  also have "\<dots> = tbl ++ map_of (rev (map (\<lambda>k. (Value k, stored_key k)) (k # rest)))"
    by (simp add: map_add_upd_left fun_eq_iff map_add_def split: option.splits)
  finally show ?case .
qed

lemma NewHandler_keys:
  assumes "NewHandler cfg nm = Inr h"
  shows "keys h = map_of (rev (map (\<lambda>k. (Value k, stored_key k)) (Keys cfg)))"
proof -
  from assms obtain tbl where loop: "NewHandler_loop (Keys cfg) Map.empty {} = Inr tbl"
    and h: "keys h = tbl"
    by (auto simp: NewHandler_def split: if_splits sum.splits)
  from NewHandler_loop_table [OF loop] h show ?thesis by simp
qed

lemma keys_last_entry:
  assumes "NewHandler cfg nm = Inr h"
    and "Keys cfg = xs @ k # ys"
    and "\<forall>k' \<in> set ys. Value k' \<noteq> Value k"
  shows "keys h (Value k) = Some (stored_key k)"
proof -
  have "map_of (rev (map (\<lambda>k. (Value k, stored_key k)) ys)) (Value k) = None"
    using assms(3) by (auto simp: map_of_eq_None_iff image_iff)
  then show ?thesis
    unfolding NewHandler_keys [OF assms(1)] assms(2)
    by (simp add: map_add_def)
qed

lemma keys_stored:
  assumes "NewHandler cfg nm = Inr h" and "keys h v = Some e"
  shows "\<exists>k \<in> set (Keys cfg). Value k = v \<and> e = stored_key k"
proof -
  from assms(2) have "(v, e) \<in> set (rev (map (\<lambda>k. (Value k, stored_key k)) (Keys cfg)))"
    unfolding NewHandler_keys [OF assms(1)] by (rule map_of_SomeD)
  then show ?thesis by auto
qed

lemma NewHandler_loop_Cons:
  "NewHandler_loop (k # rest) tbl ids =
     (if ID k = '''' \<or> Value k = '''' then Inl ErrEmptyIDOrValue
      else if ID k \<in> ids then Inl (ErrDuplicatedID (ID k))
      else NewHandler_loop rest (tbl(Value k \<mapsto> stored_key k)) (insert (ID k) ids))"
  by (simp add: stored_key_def Let_def)

lemma stored_key_ignores_id:
  "stored_key (k\<lparr>Metadata := (Metadata k)(''_id'' := u)\<rparr>) = stored_key k"
  by (simp add: stored_key_def)

lemma NewHandler_loop_ignores_id:
  "NewHandler_loop (map (\<lambda>k. k\<lparr>Metadata := (Metadata k)(''_id'' := u k)\<rparr>) ks) tbl ids =
   NewHandler_loop ks tbl ids"
proof (induction ks arbitrary: tbl ids)
  case Nil
  show ?case by simp
next
  case (Cons k rest)
  let ?k = "k\<lparr>Metadata := (Metadata k)(''_id'' := u k)\<rparr>"
  have fields: "ID ?k = ID k" "Value ?k = Value k"
    by simp_all
  have stored: "stored_key ?k = stored_key k"
    by (rule stored_key_ignores_id)
  show ?case
    by (simp only: list.map NewHandler_loop_Cons fields stored Cons.IH)
qed

text \<open>
  C9 (counterexample). \<open>cfg_dup_value\<close> has the entries \<open>a\<close> and \<open>b\<close> with the same value.
  \<open>NewHandler\<close> accepts it, and the metadata stored for the value of entry \<open>a\<close> maps
  \<open>_id\<close> to \<open>b\<close>, not to the ID of entry \<open>a\<close>.
\<close>

theorem NewHandler_shadowed_entry_id:
  "NewHandler cfg_dup_value ''acp'' = Inr handler_dup_value \<and>
   key_a \<in> set (Keys cfg_dup_value) \<and> ID key_a = ''a'' \<and>
   map_option key_ID (keys handler_dup_value (Value key_a)) = Some ''b'' \<and>
   map_option (\<lambda>e. key_Metadata e ''_id'') (keys handler_dup_value (Value key_a)) = Some (Some ''b'')"
  by (simp add: NewHandler_def cfg_dup_value_def handler_dup_value_def key_a_def key_b_def
      hash_secret_def)

text \<open>
  C9 (amended). For every handler built by \<open>NewHandler\<close>: every record of the table is the
  one stored for a configured entry with that value, and its metadata maps \<open>_id\<close> to its own
  ID; for every configured entry whose value no later entry repeats, the record found under
  its value carries the entry's ID, maps \<open>_id\<close> to that ID and agrees with the entry's
  metadata on every other field; and what the configuration supplies under \<open>_id\<close> has no
  effect at all: replacing or removing it in every entry yields the same handler, hence the
  same forwarded headers.
\<close>

theorem NewHandler_reserved_id:
  assumes "NewHandler cfg nm = Inr h"
  shows "(\<forall>v e. keys h v = Some e \<longrightarrow>
            key_Metadata e ''_id'' = Some (key_ID e) \<and>
            (\<exists>k \<in> set (Keys cfg). Value k = v \<and> e = stored_key k)) \<and>
         (\<forall>xs k ys. Keys cfg = xs @ k # ys \<and> (\<forall>k' \<in> set ys. Value k' \<noteq> Value k) \<longrightarrow>
            (\<exists>e. keys h (Value k) = Some e \<and> key_ID e = ID k \<and>
                 key_Metadata e ''_id'' = Some (ID k) \<and>
                 (\<forall>f. f \<noteq> ''_id'' \<longrightarrow> key_Metadata e f = Metadata k f))) \<and>
         (\<forall>u. NewHandler
                (cfg\<lparr>Keys := map (\<lambda>k. k\<lparr>Metadata := (Metadata k)(''_id'' := u k)\<rparr>) (Keys cfg)\<rparr>) nm =
              Inr h)"
proof (intro conjI allI impI)
  fix v e
  assume "keys h v = Some e"
  from keys_stored [OF assms this] obtain k where k: "k \<in> set (Keys cfg)" "Value k = v" "e = stored_key k"
    by blast
  from k(3) show "key_Metadata e ''_id'' = Some (key_ID e)"
    by (simp add: stored_key_def)
  from k show "\<exists>k \<in> set (Keys cfg). Value k = v \<and> e = stored_key k"
    by blast
next
  fix xs k ys
  assume "Keys cfg = xs @ k # ys \<and> (\<forall>k' \<in> set ys. Value k' \<noteq> Value k)"
  then have "keys h (Value k) = Some (stored_key k)"
    using keys_last_entry [OF assms] by blast
  then show "\<exists>e. keys h (Value k) = Some e \<and> key_ID e = ID k \<and>
      key_Metadata e ''_id'' = Some (ID k) \<and>
      (\<forall>f. f \<noteq> ''_id'' \<longrightarrow> key_Metadata e f = Metadata k f)"
    by (simp add: stored_key_def map_add_def)
next
  fix u
  show "NewHandler
      (cfg\<lparr>Keys := map (\<lambda>k. k\<lparr>Metadata := (Metadata k)(''_id'' := u k)\<rparr>) (Keys cfg)\<rparr>) nm = Inr h"
    using assms
    by (auto simp: NewHandler_def NewHandler_loop_ignores_id split: if_splits sum.splits)
qed

theorem NewHandler_reserved_id_witness:
  "key_Metadata (stored_key key_b) ''_id'' = Some ''b'' \<and>
   (\<exists>e. keys handler_dup_value (Value key_b) = Some e \<and> key_ID e = ''b'' \<and>
        key_Metadata e ''_id'' = Some ''b'' \<and> key_Metadata e ''team'' = Some ''blue'') \<and>
   NewHandler
     (cfg_dup_value\<lparr>Keys := map (\<lambda>k. k\<lparr>Metadata := (Metadata k)(''_id'' := None)\<rparr>)
        (Keys cfg_dup_value)\<rparr>) ''acp'' = Inr handler_dup_value"
proof -
  have built: "NewHandler cfg_dup_value ''acp'' = Inr handler_dup_value"
    by (simp add: NewHandler_def cfg_dup_value_def handler_dup_value_def key_a_def key_b_def
        hash_secret_def)
  have last: "Keys cfg_dup_value = [key_a] @ key_b # [] \<and> (\<forall>k' \<in> set []. Value k' \<noteq> Value key_b)"
    by (simp add: cfg_dup_value_def)
  note facts = NewHandler_reserved_id [OF built]
  from facts [THEN conjunct2, THEN conjunct1, rule_format, OF last]
  have "\<exists>e. keys handler_dup_value (Value key_b) = Some e \<and> key_ID e = ID key_b \<and>
      key_Metadata e ''_id'' = Some (ID key_b) \<and>
      (\<forall>f. f \<noteq> ''_id'' \<longrightarrow> key_Metadata e f = Metadata key_b f)"
    by blast
  then have "\<exists>e. keys handler_dup_value (Value key_b) = Some e \<and> key_ID e = ''b'' \<and>
      key_Metadata e ''_id'' = Some ''b'' \<and> key_Metadata e ''team'' = Some ''blue''"
    by (auto simp: key_b_def)
  moreover from facts [THEN conjunct2, THEN conjunct2, rule_format, of "\<lambda>k. None"]
  have "NewHandler
     (cfg_dup_value\<lparr>Keys := map (\<lambda>k. k\<lparr>Metadata := (Metadata k)(''_id'' := None)\<rparr>)
        (Keys cfg_dup_value)\<rparr>) ''acp'' = Inr handler_dup_value"
    by blast
  moreover have "key_Metadata (stored_key key_b) ''_id'' = Some ''b''"
    by (simp add: stored_key_def key_b_def)
  ultimately show ?thesis by blast
qed

text \<open>
  C10. \<open>NewHandler\<close> checks the IDs for uniqueness and never the values: a configuration
  with a lookup location, non-empty IDs and values and distinct IDs is accepted whatever
  values repeat. The table then holds, under a value, the record of the last entry with that
  value (so an earlier entry with the same value is looked up as the later one), and a
  request whose credential hashes to that value is answered from the last entry's ID and
  metadata.
\<close>

theorem NewHandler_duplicate_value_last_wins:
  assumes "Header cfg \<noteq> '''' \<or> Query cfg \<noteq> '''' \<or> Cookie cfg \<noteq> ''''"
    and "\<forall>k \<in> set (Keys cfg). ID k \<noteq> '''' \<and> Value k \<noteq> ''''"
    and "distinct (map ID (Keys cfg))"
    and "Keys cfg = xs @ k # ys"
    and "\<forall>k' \<in> set ys. Value k' \<noteq> Value k"
  shows "\<exists>h. NewHandler cfg nm = Inr h \<and>
           keys h (Value k) = Some (stored_key k) \<and>
           (\<forall>k0 \<in> set xs. Value k0 = Value k \<longrightarrow> keys h (Value k0) = Some (stored_key k)) \<and>
           (\<forall>d req apiKey.
              getAPIkey d h req = Inr apiKey \<and> ShakeSum256 d apiKey = Value k \<longrightarrow>
              ServeHTTP d h req =
                (case ForwardHeaders cfg of
                   None \<Rightarrow> \<lparr>StatusCode = 200, added_Header = []\<rparr>
                 | Some fh \<Rightarrow>
                     (case PluckClaims d fh ((Map.empty ++ Metadata k)(''_id'' \<mapsto> ID k)) of
                        Inl err \<Rightarrow> \<lparr>StatusCode = 500, added_Header = []\<rparr>
                      | Inr hdrs \<Rightarrow>
                          \<lparr>StatusCode = 200,
                           added_Header = concat (map (\<lambda>(n, vals). map (Pair n) vals) hdrs)\<rparr>)))"
proof -
  have "\<not> isl (NewHandler_loop (Keys cfg) Map.empty {})"
    using assms(2,3) by (simp add: NewHandler_loop_fails_iff)
  then obtain tbl where "NewHandler_loop (Keys cfg) Map.empty {} = Inr tbl"
    by (cases "NewHandler_loop (Keys cfg) Map.empty {}") auto
  with assms(1) obtain h where h: "NewHandler cfg nm = Inr h"
    by (auto simp: NewHandler_def)
  have stored: "keys h (Value k) = Some (stored_key k)"
    by (rule keys_last_entry [OF h assms(4,5)])
  have fwd: "fwdHeaders h = ForwardHeaders cfg"
    using h by (auto simp: NewHandler_def split: if_splits sum.splits)
  have "ServeHTTP d h req =
      (case ForwardHeaders cfg of
         None \<Rightarrow> \<lparr>StatusCode = 200, added_Header = []\<rparr>
       | Some fh \<Rightarrow>
           (case PluckClaims d fh ((Map.empty ++ Metadata k)(''_id'' \<mapsto> ID k)) of
              Inl err \<Rightarrow> \<lparr>StatusCode = 500, added_Header = []\<rparr>
            | Inr hdrs \<Rightarrow>
                \<lparr>StatusCode = 200,
                 added_Header = concat (map (\<lambda>(n, vals). map (Pair n) vals) hdrs)\<rparr>))"
    if "getAPIkey d h req = Inr apiKey \<and> ShakeSum256 d apiKey = Value k" for d req apiKey
    using that stored fwd
    by (auto simp: ServeHTTP_def stored_key_def split: option.splits sum.splits)
  with h stored show ?thesis by auto
qed

theorem NewHandler_duplicate_value_last_wins_witness:
  "\<exists>h. NewHandler cfg_dup_value ''acp'' = Inr h \<and>
       map_option key_ID (keys h (Value key_a)) = Some ''b'' \<and>
       ServeHTTP go_table h req_header = \<lparr>StatusCode = 200, added_Header = []\<rparr>"
proof -
  have "\<exists>h. NewHandler cfg_dup_value ''acp'' = Inr h \<and>
      keys h (Value key_b) = Some (stored_key key_b) \<and>
      (\<forall>k0 \<in> set [key_a]. Value k0 = Value key_b \<longrightarrow> keys h (Value k0) = Some (stored_key key_b)) \<and>
      (\<forall>d req apiKey.
         getAPIkey d h req = Inr apiKey \<and> ShakeSum256 d apiKey = Value key_b \<longrightarrow>
         ServeHTTP d h req =
           (case ForwardHeaders cfg_dup_value of
              None \<Rightarrow> \<lparr>StatusCode = 200, added_Header = []\<rparr>
            | Some fh \<Rightarrow>
                (case PluckClaims d fh ((Map.empty ++ Metadata key_b)(''_id'' \<mapsto> ID key_b)) of
                   Inl err \<Rightarrow> \<lparr>StatusCode = 500, added_Header = []\<rparr>
                 | Inr hdrs \<Rightarrow>
                     \<lparr>StatusCode = 200,
                      added_Header = concat (map (\<lambda>(n, vals). map (Pair n) vals) hdrs)\<rparr>)))"
    by (rule NewHandler_duplicate_value_last_wins [where xs = "[key_a]" and ys = "[]"])
      (simp_all add: cfg_dup_value_def key_a_def key_b_def hash_secret_def)
  then obtain h where h: "NewHandler cfg_dup_value ''acp'' = Inr h"
    and a: "keys h (Value key_a) = Some (stored_key key_b)"
    and serve: "\<And>d req apiKey.
         getAPIkey d h req = Inr apiKey \<and> ShakeSum256 d apiKey = Value key_b \<Longrightarrow>
         ServeHTTP d h req = \<lparr>StatusCode = 200, added_Header = []\<rparr>"
    by (auto simp: cfg_dup_value_def key_a_def key_b_def)
  have hdr: "header h = ''X-Api-Key''"
    using h by (auto simp: NewHandler_def cfg_dup_value_def split: if_splits sum.splits)
  have "getAPIkey go_table h req_header = Inr ''secret''"
    by (simp add: getAPIkey_def hdr go_table_def req_header_def Header_Get_def)
  moreover have "ShakeSum256 go_table ''secret'' = Value key_b"
    by (simp add: go_table_def key_b_def)
  ultimately have "ServeHTTP go_table h req_header = \<lparr>StatusCode = 200, added_Header = []\<rparr>"
    using serve by blast
  with h a show ?thesis
    by (auto simp: stored_key_def key_b_def)
qed

section \<open>Properties of the Nginx reviewer\<close>

subsection \<open>The annotation map after setAnnotations\<close>

lemma managed_keys_distinct:
  "key_auth_url \<noteq> key_configuration_snippet" "key_auth_url \<noteq> key_server_snippets"
  "key_auth_url \<noteq> key_location_snippets" "key_configuration_snippet \<noteq> key_server_snippets"
  "key_configuration_snippet \<noteq> key_location_snippets" "key_server_snippets \<noteq> key_location_snippets"
  by (simp_all add: key_auth_url_def key_configuration_snippet_def key_server_snippets_def
      key_location_snippets_def)

lemma clearEmpty_Some:
  "clearEmpty k (Some m) = Some (if m k = None \<or> m k = Some '''' then m(k := None) else m)"
  by (auto simp: clearEmpty_def anno_get_def anno_delete_def split: option.splits)

text \<open>The value an annotation takes: absent for the empty string.\<close>

lemma setAnnotations_Some:
  "setAnnotations (Some m) s =
     Inr (Some (\<lambda>k.
       if k = key_auth_url then (if AuthURL s = '''' then None else Some (AuthURL s))
       else if k = key_configuration_snippet
         then (if ConfigurationSnippet s = '''' then None else Some (ConfigurationSnippet s))
       else if k = key_server_snippets
         then (if ServerSnippets s = '''' then None else Some (ServerSnippets s))
       else if k = key_location_snippets
         then (if LocationSnippets s = '''' then None else Some (LocationSnippets s))
       else m k))"
  using managed_keys_distinct
  by (simp add: setAnnotations_def clearEmptyAnnotations_def clearEmpty_Some fun_eq_iff)

lemma setAnnotations_None: "setAnnotations None s = Inl PanicNilMap"
  by (simp add: setAnnotations_def)

text \<open>
  C6. Whatever the compiled snippets are, each of the four managed annotations whose value is
  empty is absent from the map \<open>setAnnotations\<close> leaves (deleted, never present as the empty
  string), and each other one holds its value: the desired state contains only the non-empty
  managed annotations.
\<close>

theorem setAnnotations_omits_empty:
  assumes "setAnnotations anno snippets = Inr anno'"
  shows "\<exists>m'. anno' = Some m' \<and>
      m' key_auth_url = (if AuthURL snippets = '''' then None else Some (AuthURL snippets)) \<and>
      m' key_configuration_snippet =
        (if ConfigurationSnippet snippets = '''' then None
         else Some (ConfigurationSnippet snippets)) \<and>
      m' key_server_snippets =
        (if ServerSnippets snippets = '''' then None else Some (ServerSnippets snippets)) \<and>
      m' key_location_snippets =
        (if LocationSnippets snippets = '''' then None else Some (LocationSnippets snippets)) \<and>
      (\<forall>k \<in> managed_keys. m' k \<noteq> Some '''')"
proof (cases anno)
  case None
  with assms show ?thesis by (simp add: setAnnotations_None)
next
  case (Some m)
  with assms show ?thesis
    using managed_keys_distinct
    by (auto simp: setAnnotations_Some managed_keys_def)
qed

theorem setAnnotations_omits_empty_witness:
  "\<exists>m'. setAnnotations (Some annotations_stale)
          \<lparr>AuthURL = ''http://agent/p@ns'', ConfigurationSnippet = '''',
           ServerSnippets = '''', LocationSnippets = ''''\<rparr> = Inr (Some m') \<and>
        m' key_auth_url = Some ''http://agent/p@ns'' \<and>
        m' key_configuration_snippet = None \<and> m' key_server_snippets = None \<and>
        m' key_location_snippets = None"
proof -
  let ?s = "\<lparr>AuthURL = ''http://agent/p@ns'', ConfigurationSnippet = '''',
            ServerSnippets = '''', LocationSnippets = ''''\<rparr>"
  obtain a where a: "setAnnotations (Some annotations_stale) ?s = Inr a"
    by (simp add: setAnnotations_Some)
  from setAnnotations_omits_empty [OF a] a show ?thesis
    by auto
qed

subsection \<open>Review\<close>

text \<open>
  C1. When the policy (if any) compiles and the annotations of the object already equal the
  desired state (the four managed keys compared, a missing key reading as the empty string),
  \<open>Review\<close> returns no patch and no error.
\<close>

theorem Review_idempotent:
  assumes "Request ar = Some rq"
    and "Unmarshal_metadata pkg (Object_Raw rq) = Inr meta"
    and "desired_snippets pkg r meta = Inr snippets"
    and "noPatchRequired (Annotations meta) snippets"
  shows "Review pkg r ar = Inr None"
  using assms by (simp add: Review_def)

theorem Review_idempotent_witness:
  "desired_snippets pkg_example reviewer_example
      \<lparr>Namespace = ''ns'', Annotations = Some annotations_applied\<rparr> =
     Inr \<lparr>AuthURL = ''http://agent/my-policy@ns'', ConfigurationSnippet = '''',
          ServerSnippets = '''', LocationSnippets = ''''\<rparr> \<and>
   Review pkg_example reviewer_example (review_of ''ingress with policy applied'') = Inr None"
proof -
  let ?meta = "\<lparr>Namespace = ''ns'', Annotations = Some annotations_applied\<rparr>"
  let ?s = "\<lparr>AuthURL = ''http://agent/my-policy@ns'', ConfigurationSnippet = '''',
            ServerSnippets = '''', LocationSnippets = ''''\<rparr>"
  have rq: "Request (review_of ''ingress with policy applied'') =
      Some \<lparr>Request_Kind = ingress_v1, Object_Raw = ''ingress with policy applied'',
            OldObject_Raw = ''''\<rparr>"
    by (simp add: review_of_def)
  have meta: "Unmarshal_metadata pkg_example
      (Object_Raw \<lparr>Request_Kind = ingress_v1, Object_Raw = ''ingress with policy applied'',
                   OldObject_Raw = ''''\<rparr>) = Inr ?meta"
    by (simp add: pkg_example_def)
  have pol: "anno_get (Some annotations_applied) ''hub.traefik.io/access-control-policy'' = ''my-policy''"
    by (simp add: anno_get_def annotations_applied_def key_auth_url_def)
  have desired: "desired_snippets pkg_example reviewer_example ?meta = Inr ?s"
    by (simp add: desired_snippets_def compiled_snippets_def pol mergeSnippets_spec_def
        pkg_example_def reviewer_example_def)
  have same: "noPatchRequired (Annotations ?meta) ?s"
    by (simp add: noPatchRequired_def anno_get_def annotations_applied_def key_auth_url_def
        key_configuration_snippet_def key_server_snippets_def key_location_snippets_def)
  from Review_idempotent [OF rq meta desired same] desired show ?thesis
    by simp
qed

text \<open>
  C8. Every patch \<open>Review\<close> emits is one replacement of the annotation map, and the new map
  agrees with the annotations of the reviewed object on every key other than the four managed
  ones: no other annotation is changed, added or dropped.
\<close>

theorem Review_preserves_foreign_annotations:
  assumes "Review pkg r ar = Inr (Some p)"
  shows "\<exists>rq meta m m'.
      Request ar = Some rq \<and> Unmarshal_metadata pkg (Object_Raw rq) = Inr meta \<and>
      Annotations meta = Some m \<and>
      p = [\<lparr>patch_op = ''replace'', patch_path = ''/metadata/annotations'',
            patch_value = Some m'\<rparr>] \<and>
      (\<forall>k. k \<notin> managed_keys \<longrightarrow> m' k = m k)"
proof -
  from assms obtain rq where rq: "Request ar = Some rq"
    by (auto simp: Review_def split: option.splits)
  from assms rq obtain meta where meta: "Unmarshal_metadata pkg (Object_Raw rq) = Inr meta"
    by (auto simp: Review_def split: sum.splits)
  from assms rq meta obtain s where s: "desired_snippets pkg r meta = Inr s"
    by (auto simp: Review_def split: sum.splits)
  from assms rq meta s obtain anno where anno: "setAnnotations (Annotations meta) s = Inr anno"
    and p: "p = [\<lparr>patch_op = ''replace'', patch_path = ''/metadata/annotations'',
                  patch_value = anno\<rparr>]"
    by (auto simp: Review_def split: if_splits sum.splits)
  from anno obtain m where m: "Annotations meta = Some m"
    by (cases "Annotations meta") (auto simp: setAnnotations_None)
  from anno m obtain m' where m': "anno = Some m'" and frame: "\<forall>k. k \<notin> managed_keys \<longrightarrow> m' k = m k"
    by (auto simp: setAnnotations_Some managed_keys_def)
  from rq meta m p m' frame show ?thesis by blast
qed

theorem Review_preserves_foreign_annotations_witness:
  "\<exists>m'. Review pkg_example reviewer_example (review_of ''ingress with policy cleared'') =
          Inr (Some [\<lparr>patch_op = ''replace'', patch_path = ''/metadata/annotations'',
                      patch_value = Some m'\<rparr>]) \<and>
        m' ''custom-annotation'' = Some ''foobar''"
proof -
  have pol: "anno_get (Some annotations_stale) ''hub.traefik.io/access-control-policy'' = ''''"
    by (simp add: anno_get_def annotations_stale_def key_auth_url_def key_server_snippets_def)
  have differs: "\<not> noPatchRequired (Some annotations_stale) zero_snippets"
    by (simp add: noPatchRequired_def anno_get_def annotations_stale_def zero_snippets_def
        key_auth_url_def key_configuration_snippet_def key_server_snippets_def
        key_location_snippets_def)
  obtain p where p: "Review pkg_example reviewer_example (review_of ''ingress with policy cleared'') =
      Inr (Some p)"
    by (simp add: Review_def review_of_def pkg_example_def desired_snippets_def
        compiled_snippets_def pol mergeSnippets_spec_def differs setAnnotations_Some)
  have custom: "''custom-annotation'' \<notin> managed_keys"
    by (simp add: managed_keys_def key_auth_url_def key_configuration_snippet_def
        key_server_snippets_def key_location_snippets_def)
  from Review_preserves_foreign_annotations [OF p] obtain rq meta m m' where
    rq: "Request (review_of ''ingress with policy cleared'') = Some rq" and
    meta: "Unmarshal_metadata pkg_example (Object_Raw rq) = Inr meta" and
    m: "Annotations meta = Some m" and
    pm: "p = [\<lparr>patch_op = ''replace'', patch_path = ''/metadata/annotations'',
             patch_value = Some m'\<rparr>]" and
    frame: "\<forall>k. k \<notin> managed_keys \<longrightarrow> m' k = m k"
    by blast
  from rq meta m have "m = annotations_stale"
    by (auto simp: review_of_def pkg_example_def)
  with frame custom have "m' ''custom-annotation'' = Some ''foobar''"
    by (simp add: annotations_stale_def key_auth_url_def key_server_snippets_def)
  with p pm show ?thesis by blast
qed

text \<open>
  C7. With \<open>mergeSnippets\<close> as the spec has it: for an object whose policy annotation is
  absent or empty, nothing is looked up and the compiled state is the zero value (none of the
  managed constructs); if all four managed annotations of the object are already absent or
  empty, \<open>Review\<close> returns no patch; otherwise it returns the one patch that replaces the
  annotation map by the object's map without the four managed keys.
\<close>

theorem Review_policy_cleared:
  assumes "Request ar = Some rq"
    and "Unmarshal_metadata pkg (Object_Raw rq) = Inr meta"
    and "anno_get (Annotations meta) (AnnotationNeoAuth pkg) = ''''"
    and "mergeSnippets pkg = mergeSnippets_spec"
  shows "compiled_snippets pkg r meta = Inr zero_snippets \<and>
     Review pkg r ar =
       (if \<forall>k \<in> managed_keys. anno_get (Annotations meta) k = '''' then Inr None
        else Inr (Some [\<lparr>patch_op = ''replace'', patch_path = ''/metadata/annotations'',
                         patch_value =
                           map_option (\<lambda>m. m |` (- managed_keys)) (Annotations meta)\<rparr>]))"
proof -
  have compiled: "compiled_snippets pkg r meta = Inr zero_snippets"
    using assms(3) by (simp add: compiled_snippets_def)
  then have desired: "desired_snippets pkg r meta = Inr zero_snippets"
    using assms(4) by (simp add: desired_snippets_def mergeSnippets_spec_def)
  have same: "noPatchRequired (Annotations meta) zero_snippets \<longleftrightarrow>
      (\<forall>k \<in> managed_keys. anno_get (Annotations meta) k = '''')"
    by (auto simp: noPatchRequired_def zero_snippets_def managed_keys_def)
  have review: "Review pkg r ar =
      (if \<forall>k \<in> managed_keys. anno_get (Annotations meta) k = '''' then Inr None
       else Inr (Some [\<lparr>patch_op = ''replace'', patch_path = ''/metadata/annotations'',
                        patch_value =
                          map_option (\<lambda>m. m |` (- managed_keys)) (Annotations meta)\<rparr>]))"
  proof (cases "\<forall>k \<in> managed_keys. anno_get (Annotations meta) k = ''''")
    case True
    with same assms(1,2) desired show ?thesis
      by (simp add: Review_def)
  next
    case False
    then obtain m where m: "Annotations meta = Some m"
      by (cases "Annotations meta") (auto simp: anno_get_def)
    have "setAnnotations (Some m) zero_snippets = Inr (Some (m |` (- managed_keys)))"
      by (auto simp: setAnnotations_Some zero_snippets_def managed_keys_def restrict_map_def
          fun_eq_iff)
    with False same assms(1,2) desired m show ?thesis
      by (simp add: Review_def)
  qed
  from compiled review show ?thesis by (rule conjI)
qed

theorem Review_policy_cleared_witness:
  "compiled_snippets pkg_example reviewer_example
      \<lparr>Namespace = ''ns'', Annotations = Some annotations_stale\<rparr> = Inr zero_snippets \<and>
   Review pkg_example reviewer_example (review_of ''ingress with policy cleared'') =
     Inr (Some [\<lparr>patch_op = ''replace'', patch_path = ''/metadata/annotations'',
                 patch_value = Some (annotations_stale |` (- managed_keys))\<rparr>]) \<and>
   (annotations_stale |` (- managed_keys)) key_auth_url = None \<and>
   (annotations_stale |` (- managed_keys)) key_server_snippets = None \<and>
   (annotations_stale |` (- managed_keys)) ''custom-annotation'' = Some ''foobar'' \<and>
   Review pkg_example reviewer_example (review_of ''ingress without annotations'') = Inr None"
proof -
  let ?meta = "\<lparr>Namespace = ''ns'', Annotations = Some annotations_stale\<rparr>"
  let ?none = "\<lparr>Namespace = ''ns'', Annotations = None\<rparr>"
  have merge: "mergeSnippets pkg_example = mergeSnippets_spec"
    by (simp add: pkg_example_def)
  have rq: "Request (review_of raw) =
      Some \<lparr>Request_Kind = ingress_v1, Object_Raw = raw, OldObject_Raw = ''''\<rparr>" for raw
    by (simp add: review_of_def)
  have meta: "Unmarshal_metadata pkg_example
      (Object_Raw \<lparr>Request_Kind = ingress_v1, Object_Raw = ''ingress with policy cleared'',
                   OldObject_Raw = ''''\<rparr>) = Inr ?meta"
    by (simp add: pkg_example_def)
  have none: "Unmarshal_metadata pkg_example
      (Object_Raw \<lparr>Request_Kind = ingress_v1, Object_Raw = ''ingress without annotations'',
                   OldObject_Raw = ''''\<rparr>) = Inr ?none"
    by (simp add: pkg_example_def)
  have pol: "anno_get (Annotations ?meta) (AnnotationNeoAuth pkg_example) = ''''"
    by (simp add: anno_get_def annotations_stale_def pkg_example_def key_auth_url_def
        key_server_snippets_def)
  have pol_none: "anno_get (Annotations ?none) (AnnotationNeoAuth pkg_example) = ''''"
    by (simp add: anno_get_def)
  have stale: "\<not> (\<forall>k \<in> managed_keys. anno_get (Annotations ?meta) k = '''')"
    by (simp add: managed_keys_def anno_get_def annotations_stale_def key_auth_url_def)
  have clean: "\<forall>k \<in> managed_keys. anno_get (Annotations ?none) k = ''''"
    by (simp add: anno_get_def)
  have custom: "''custom-annotation'' \<notin> managed_keys"
    by (simp add: managed_keys_def key_auth_url_def key_configuration_snippet_def
        key_server_snippets_def key_location_snippets_def)
  have restricted: "(annotations_stale |` (- managed_keys)) key_auth_url = None"
    "(annotations_stale |` (- managed_keys)) key_server_snippets = None"
    "(annotations_stale |` (- managed_keys)) ''custom-annotation'' = Some ''foobar''"
    using custom
    by (simp_all add: restrict_map_def managed_keys_def annotations_stale_def key_auth_url_def
        key_server_snippets_def)
  from Review_policy_cleared [OF rq meta pol merge, of reviewer_example] stale
    Review_policy_cleared [OF rq none pol_none merge, of reviewer_example] clean restricted
  show ?thesis by simp
qed

subsection \<open>CanReview\<close>

text \<open>
  C5 (counterexample). An Ingress whose legacy class annotation is the default Nginx value,
  reviewed over a registry whose default-controller lookup fails: \<open>CanReview\<close> asks for the
  default controller before it looks at the class fields and returns that error, where the
  claim has the annotation decide (Nginx, whatever the registry holds).
\<close>

theorem CanReview_default_lookup_fails:
  "isNetV1Ingress pkg_example ingress_v1 \<and>
   parseIngressClass pkg_example ''ingress with class annotation'' =
     Inr ('''', defaultAnnotationNginx pkg_example) \<and>
   CanReview pkg_example reviewer_no_default (review_of ''ingress with class annotation'') =
     Inl (ErrWrap ''get default controller'' (ErrExternal ''multiple default ingress classes''))"
  by (simp add: CanReview_def review_of_def pkg_example_def reviewer_no_default_def)

text \<open>
  C5 (amended). For an Ingress request whose class fields parse, and provided the registry's
  default-controller lookup succeeds (it is made for every such request, and its error is
  returned even where the class name or the annotation would decide), \<open>CanReview\<close> does not
  fail and decides by the first of: the class name of the object, looked up in the registry
  (whatever the annotation says); else the legacy class annotation, where the default Nginx
  value counts as Nginx whatever controllers the registry maps and any other value is looked
  up in the registry; else the default controller of the registry. A controller that is
  neither of the two Nginx types gives \<open>false\<close>, not an error.
\<close>

theorem CanReview_precedence:
  assumes "Request ar = Some rq"
    and "isNetV1Ingress pkg (Request_Kind rq) \<or> isNetV1Beta1Ingress pkg (Request_Kind rq) \<or>
         isExtV1Beta1Ingress pkg (Request_Kind rq)"
    and "parseIngressClass pkg (Object_Raw rq) = Inr (ingClassName, ingClassAnno)"
    and "GetDefaultController (ingressClasses r) = Inr defaultCtrlr"
  shows "CanReview pkg r ar =
      Inr (if ingClassName \<noteq> '''' then isNginx pkg (GetController (ingressClasses r) ingClassName)
           else if ingClassAnno \<noteq> '''' then
             ingClassAnno = defaultAnnotationNginx pkg \<or>
             isNginx pkg (GetController (ingressClasses r) ingClassAnno)
           else isNginx pkg defaultCtrlr) \<and>
     (ingClassName \<noteq> '''' \<and>
        GetController (ingressClasses r) ingClassName \<noteq> ControllerTypeNginxOfficial pkg \<and>
        GetController (ingressClasses r) ingClassName \<noteq> ControllerTypeNginxCommunity pkg \<longrightarrow>
      CanReview pkg r ar = Inr False) \<and>
     (ingClassName = '''' \<and> ingClassAnno \<noteq> '''' \<and> ingClassAnno = defaultAnnotationNginx pkg \<longrightarrow>
      CanReview pkg r ar = Inr True)"
proof -
  have "CanReview pkg r ar =
      Inr (if ingClassName \<noteq> '''' then isNginx pkg (GetController (ingressClasses r) ingClassName)
           else if ingClassAnno \<noteq> '''' then
             ingClassAnno = defaultAnnotationNginx pkg \<or>
             isNginx pkg (GetController (ingressClasses r) ingClassAnno)
           else isNginx pkg defaultCtrlr)"
    using assms by (auto simp: CanReview_def Let_def)
  then show ?thesis
    by (auto simp: isNginx_def)
qed

theorem CanReview_precedence_witness:
  "CanReview pkg_example reviewer_example (review_of ''ingress with class name'') = Inr False \<and>
   CanReview pkg_example reviewer_example (review_of ''ingress with class annotation'') = Inr True \<and>
   CanReview pkg_example reviewer_example (review_of ''ingress without class'') = Inr True"
proof -
  have rq: "Request (review_of raw) =
      Some \<lparr>Request_Kind = ingress_v1, Object_Raw = raw, OldObject_Raw = ''''\<rparr>" for raw
    by (simp add: review_of_def)
  have kind: "isNetV1Ingress pkg_example
        (Request_Kind \<lparr>Request_Kind = ingress_v1, Object_Raw = raw, OldObject_Raw = ''''\<rparr>) \<or>
      isNetV1Beta1Ingress pkg_example
        (Request_Kind \<lparr>Request_Kind = ingress_v1, Object_Raw = raw, OldObject_Raw = ''''\<rparr>) \<or>
      isExtV1Beta1Ingress pkg_example
        (Request_Kind \<lparr>Request_Kind = ingress_v1, Object_Raw = raw, OldObject_Raw = ''''\<rparr>)" for raw
    by (simp add: pkg_example_def)
  have dflt: "GetDefaultController (ingressClasses reviewer_example) = Inr ''k8s.io/ingress-nginx''"
    by (simp add: reviewer_example_def)
  have by_name: "parseIngressClass pkg_example
      (Object_Raw \<lparr>Request_Kind = ingress_v1, Object_Raw = ''ingress with class name'',
                   OldObject_Raw = ''''\<rparr>) = Inr (''my-class'', ''nginx'')"
    by (simp add: pkg_example_def)
  have by_anno: "parseIngressClass pkg_example
      (Object_Raw \<lparr>Request_Kind = ingress_v1, Object_Raw = ''ingress with class annotation'',
                   OldObject_Raw = ''''\<rparr>) = Inr ('''', ''nginx'')"
    by (simp add: pkg_example_def)
  have by_default: "parseIngressClass pkg_example
      (Object_Raw \<lparr>Request_Kind = ingress_v1, Object_Raw = ''ingress without class'',
                   OldObject_Raw = ''''\<rparr>) = Inr ('''', '''')"
    by (simp add: pkg_example_def)
  from CanReview_precedence [OF rq kind by_name dflt]
  have "CanReview pkg_example reviewer_example (review_of ''ingress with class name'') = Inr False"
    by (simp add: isNginx_def pkg_example_def reviewer_example_def)
  moreover from CanReview_precedence [OF rq kind by_anno dflt]
  have "CanReview pkg_example reviewer_example (review_of ''ingress with class annotation'') = Inr True"
    by (simp add: isNginx_def pkg_example_def reviewer_example_def)
  moreover from CanReview_precedence [OF rq kind by_default dflt]
  have "CanReview pkg_example reviewer_example (review_of ''ingress without class'') = Inr True"
    by (simp add: isNginx_def pkg_example_def reviewer_example_def)
  ultimately show ?thesis by simp
qed

section \<open>Properties of the Traefik route rewrite\<close>

lemma swapRef_first:
  "old \<notin> set pre \<Longrightarrow> swapRef old new (pre @ old # post) = pre @ new # post"
  by (induction pre) auto

lemma rewriteRoute_fields:
  "Match (rewriteRoute prev new rt) = Match rt \<and>
   route_Kind (rewriteRoute prev new rt) = route_Kind rt \<and>
   Priority (rewriteRoute prev new rt) = Priority rt \<and>
   Services (rewriteRoute prev new rt) = Services rt"
  by (simp add: rewriteRoute_def)

lemma rewriteRoute_swap:
  assumes "Middlewares rt = pre @ old # post" and "old \<notin> set pre"
  shows "Middlewares (rewriteRoute (Some old) new rt) = pre @ new # post"
  using assms by (simp add: rewriteRoute_def swapRef_first)

text \<open>The references of any route after the rewrite, by the three cases of the spec.\<close>

lemma rewriteRoute_refs:
  "(old \<in> set (Middlewares rt) \<longrightarrow>
      (\<exists>pre post. Middlewares rt = pre @ old # post \<and> old \<notin> set pre \<and>
         Middlewares (rewriteRoute (Some old) new rt) = pre @ new # post)) \<and>
   (old \<notin> set (Middlewares rt) \<and> new \<in> set (Middlewares rt) \<longrightarrow>
      Middlewares (rewriteRoute (Some old) new rt) = Middlewares rt) \<and>
   (old \<notin> set (Middlewares rt) \<and> new \<notin> set (Middlewares rt) \<longrightarrow>
      Middlewares (rewriteRoute (Some old) new rt) = Middlewares rt @ [new])"
proof (intro conjI impI)
  assume "old \<in> set (Middlewares rt)"
  then obtain pre post where split: "Middlewares rt = pre @ old # post" "old \<notin> set pre"
    by (auto dest: split_list_first)
  then have "Middlewares (rewriteRoute (Some old) new rt) = pre @ new # post"
    by (rule rewriteRoute_swap)
  with split show "\<exists>pre post. Middlewares rt = pre @ old # post \<and> old \<notin> set pre \<and>
      Middlewares (rewriteRoute (Some old) new rt) = pre @ new # post"
    by blast
next
  assume "old \<notin> set (Middlewares rt) \<and> new \<in> set (Middlewares rt)"
  then show "Middlewares (rewriteRoute (Some old) new rt) = Middlewares rt"
    by (simp add: rewriteRoute_def)
next
  assume "old \<notin> set (Middlewares rt) \<and> new \<notin> set (Middlewares rt)"
  then show "Middlewares (rewriteRoute (Some old) new rt) = Middlewares rt @ [new]"
    by (simp add: rewriteRoute_def)
qed

text \<open>In every route, the references other than the two managed ones stay, in their order.\<close>

lemma rewriteRoute_foreign:
  "filter (\<lambda>m. m \<noteq> old \<and> m \<noteq> new) (Middlewares (rewriteRoute (Some old) new rt)) =
   filter (\<lambda>m. m \<noteq> old \<and> m \<noteq> new) (Middlewares rt)"
proof (cases "old \<in> set (Middlewares rt)")
  case True
  with rewriteRoute_refs [of old rt new] obtain pre post where
    "Middlewares rt = pre @ old # post"
    "Middlewares (rewriteRoute (Some old) new rt) = pre @ new # post"
    by blast
  then show ?thesis by simp
next
  case False
  with rewriteRoute_refs [of old rt new] show ?thesis
    by (cases "new \<in> set (Middlewares rt)") simp_all
qed

text \<open>
  C2. On an update where a route of the object references the previous policy's managed
  middleware \<open>old\<close> (first at the position after \<open>pre\<close>) and the new policy's managed
  middleware \<open>new\<close> differs from it, the review emits the one patch replacing the route
  list, in which that route's references are \<open>pre\<close>, then \<open>new\<close> in the place of \<open>old\<close>,
  then the rest as it was. The number of routes and every other field of every route are
  unchanged, and so are the references of every route: a route that references \<open>old\<close> has
  its first such reference replaced by \<open>new\<close> in place and nothing else touched, a route
  that references neither gets \<open>new\<close> appended after its references, a route that already
  references \<open>new\<close> and not \<open>old\<close> is left as it is; in every route the references other
  than \<open>old\<close> and \<open>new\<close> are the same, in the same order.
\<close>

theorem Review_swaps_managed_reference:
  assumes "old \<noteq> new"
    and "i < length routes"
    and "Middlewares (routes ! i) = pre @ old # post"
    and "old \<notin> set pre"
  shows "\<exists>routes'.
      TraefikIngressRoute_Review (Some old) new routes =
        Some [\<lparr>route_patch_op = ''replace'', route_patch_path = ''/spec/routes'',
               route_patch_value = routes'\<rparr>] \<and>
      length routes' = length routes \<and>
      Middlewares (routes' ! i) = pre @ new # post \<and>
      (\<forall>j < length routes.
         Match (routes' ! j) = Match (routes ! j) \<and>
         route_Kind (routes' ! j) = route_Kind (routes ! j) \<and>
         Priority (routes' ! j) = Priority (routes ! j) \<and>
         Services (routes' ! j) = Services (routes ! j)) \<and>
      (\<forall>j < length routes.
         (old \<in> set (Middlewares (routes ! j)) \<longrightarrow>
            (\<exists>pre' post'. Middlewares (routes ! j) = pre' @ old # post' \<and> old \<notin> set pre' \<and>
               Middlewares (routes' ! j) = pre' @ new # post')) \<and>
         (old \<notin> set (Middlewares (routes ! j)) \<and> new \<in> set (Middlewares (routes ! j)) \<longrightarrow>
            Middlewares (routes' ! j) = Middlewares (routes ! j)) \<and>
         (old \<notin> set (Middlewares (routes ! j)) \<and> new \<notin> set (Middlewares (routes ! j)) \<longrightarrow>
            Middlewares (routes' ! j) = Middlewares (routes ! j) @ [new])) \<and>
      (\<forall>j < length routes.
         filter (\<lambda>m. m \<noteq> old \<and> m \<noteq> new) (Middlewares (routes' ! j)) =
         filter (\<lambda>m. m \<noteq> old \<and> m \<noteq> new) (Middlewares (routes ! j)))"
proof -
  let ?routes' = "map (rewriteRoute (Some old) new) routes"
  have at_i: "Middlewares (?routes' ! i) = pre @ new # post"
    using assms(2-4) by (simp add: rewriteRoute_swap)
  with assms(1,3) have "Middlewares (?routes' ! i) \<noteq> Middlewares (routes ! i)"
    by simp
  then have changed: "?routes' \<noteq> routes"
    by metis
  have fields: "\<forall>j < length routes.
      Match (?routes' ! j) = Match (routes ! j) \<and>
      route_Kind (?routes' ! j) = route_Kind (routes ! j) \<and>
      Priority (?routes' ! j) = Priority (routes ! j) \<and>
      Services (?routes' ! j) = Services (routes ! j)"
    by (simp add: rewriteRoute_fields)
  have refs: "\<forall>j < length routes.
      (old \<in> set (Middlewares (routes ! j)) \<longrightarrow>
         (\<exists>pre' post'. Middlewares (routes ! j) = pre' @ old # post' \<and> old \<notin> set pre' \<and>
            Middlewares (?routes' ! j) = pre' @ new # post')) \<and>
      (old \<notin> set (Middlewares (routes ! j)) \<and> new \<in> set (Middlewares (routes ! j)) \<longrightarrow>
         Middlewares (?routes' ! j) = Middlewares (routes ! j)) \<and>
      (old \<notin> set (Middlewares (routes ! j)) \<and> new \<notin> set (Middlewares (routes ! j)) \<longrightarrow>
         Middlewares (?routes' ! j) = Middlewares (routes ! j) @ [new])"
  proof (intro allI impI)
    fix j
    assume "j < length routes"
    then have "?routes' ! j = rewriteRoute (Some old) new (routes ! j)"
      by simp
    then show "(old \<in> set (Middlewares (routes ! j)) \<longrightarrow>
         (\<exists>pre' post'. Middlewares (routes ! j) = pre' @ old # post' \<and> old \<notin> set pre' \<and>
            Middlewares (?routes' ! j) = pre' @ new # post')) \<and>
      (old \<notin> set (Middlewares (routes ! j)) \<and> new \<in> set (Middlewares (routes ! j)) \<longrightarrow>
         Middlewares (?routes' ! j) = Middlewares (routes ! j)) \<and>
      (old \<notin> set (Middlewares (routes ! j)) \<and> new \<notin> set (Middlewares (routes ! j)) \<longrightarrow>
         Middlewares (?routes' ! j) = Middlewares (routes ! j) @ [new])"
      using rewriteRoute_refs [of old "routes ! j" new] by simp
  qed
  have foreign: "\<forall>j < length routes.
      filter (\<lambda>m. m \<noteq> old \<and> m \<noteq> new) (Middlewares (?routes' ! j)) =
      filter (\<lambda>m. m \<noteq> old \<and> m \<noteq> new) (Middlewares (routes ! j))"
    by (simp add: rewriteRoute_foreign)
  have patch: "TraefikIngressRoute_Review (Some old) new routes =
      Some [\<lparr>route_patch_op = ''replace'', route_patch_path = ''/spec/routes'',
             route_patch_value = ?routes'\<rparr>]"
    using changed by (simp add: TraefikIngressRoute_Review_def Let_def)
  have len: "length ?routes' = length routes"
    by simp
  from patch len at_i fields refs foreign show ?thesis
    by (intro exI [of _ ?routes'] conjI)
qed

theorem Review_swaps_managed_reference_witness:
  "TraefikIngressRoute_Review (Some ref_old) ref_new
      [route_example [ref_custom, ref_old], route_example [ref_foo]] =
     Some [\<lparr>route_patch_op = ''replace'', route_patch_path = ''/spec/routes'',
            route_patch_value =
              [route_example [ref_custom, ref_new], route_example [ref_foo, ref_new]]\<rparr>]"
proof -
  let ?routes = "[route_example [ref_custom, ref_old], route_example [ref_foo]]"
  have distinct_refs: "ref_old \<noteq> ref_new" "ref_old \<notin> set [ref_custom]"
    "ref_old \<notin> set [ref_foo]" "ref_new \<notin> set [ref_foo]"
    by (simp_all add: ref_old_def ref_new_def ref_custom_def ref_foo_def)
  have first: "(0::nat) < length ?routes"
    "Middlewares (?routes ! 0) = [ref_custom] @ ref_old # []"
    by (simp_all add: route_example_def)
  from Review_swaps_managed_reference [OF distinct_refs(1) first distinct_refs(2)]
  obtain routes' where
    patch: "TraefikIngressRoute_Review (Some ref_old) ref_new ?routes =
        Some [\<lparr>route_patch_op = ''replace'', route_patch_path = ''/spec/routes'',
               route_patch_value = routes'\<rparr>]" and
    len: "length routes' = length ?routes" and
    refs0: "Middlewares (routes' ! 0) = [ref_custom] @ ref_new # []" and
    fields: "\<forall>j < length ?routes.
         Match (routes' ! j) = Match (?routes ! j) \<and>
         route_Kind (routes' ! j) = route_Kind (?routes ! j) \<and>
         Priority (routes' ! j) = Priority (?routes ! j) \<and>
         Services (routes' ! j) = Services (?routes ! j)" and
    refs: "\<forall>j < length ?routes.
         (ref_old \<in> set (Middlewares (?routes ! j)) \<longrightarrow>
            (\<exists>pre' post'. Middlewares (?routes ! j) = pre' @ ref_old # post' \<and>
               ref_old \<notin> set pre' \<and> Middlewares (routes' ! j) = pre' @ ref_new # post')) \<and>
         (ref_old \<notin> set (Middlewares (?routes ! j)) \<and> ref_new \<in> set (Middlewares (?routes ! j)) \<longrightarrow>
            Middlewares (routes' ! j) = Middlewares (?routes ! j)) \<and>
         (ref_old \<notin> set (Middlewares (?routes ! j)) \<and> ref_new \<notin> set (Middlewares (?routes ! j)) \<longrightarrow>
            Middlewares (routes' ! j) = Middlewares (?routes ! j) @ [ref_new])"
    by blast
  from len obtain r0 r1 where rs: "routes' = [r0, r1]"
    by (cases routes'; cases "tl routes'") auto
  have second: "Middlewares (?routes ! 1) = [ref_foo]"
    by (simp add: route_example_def)
  from refs [rule_format, of 1] distinct_refs(3,4) second
  have refs1: "Middlewares (routes' ! 1) = [ref_foo, ref_new]"
    by simp
  from fields [rule_format, of 0] refs0 rs have "r0 = route_example [ref_custom, ref_new]"
    by (simp add: route_example_def)
  moreover from fields [rule_format, of 1] refs1 rs have "r1 = route_example [ref_foo, ref_new]"
    by (simp add: route_example_def)
  ultimately show ?thesis
    using patch rs by simp
qed

end
